theory Spec2Isabelle
  imports Complex_Main "HOL-Library.Log_Nat"
begin

section \<open>IB Economics tutor: assessment and progress engine\<close>

text \<open>
  A shallow embedding of the grading, recommendation and progress code of the single-file
  React application. Conventions of the model:
  \<^item> a JavaScript string is a \<^typ>\<open>string\<close>, one \<^typ>\<open>char\<close> per code unit below 256;
  \<^item> a JavaScript number is an \<^typ>\<open>int\<close> where the code only ever holds small integers
    (maximum scores, indices, counters, the heuristic score) and an exact \<^typ>\<open>rat\<close> inside
    the ratios of the heuristic grader and of the section scores; the numbers that depend
    on the remote reply (the remote score, the points, the percent) are doubles, see
    \<open>jsnum\<close> below;
  \<^item> \<open>Math.round\<close> is \<^const>\<open>round\<close>, that is \<open>\<lfloor>x + 1/2\<rfloor>\<close>: halves go up;
  \<^item> an optional field or an absent key is an \<^typ>\<open>'a option\<close>.
\<close>

subsection \<open>Strings\<close>

definition is_az :: "char \<Rightarrow> bool" where
  \<comment> \<open>the character class \<open>[a-z]\<close>\<close>
  "is_az c \<longleftrightarrow> 97 \<le> (of_char c :: nat) \<and> (of_char c :: nat) \<le> 122"

definition is_digit :: "char \<Rightarrow> bool" where
  \<comment> \<open>the character class \<open>\d\<close>, which is \<open>[0-9]\<close> in JavaScript\<close>
  "is_digit c \<longleftrightarrow> 48 \<le> (of_char c :: nat) \<and> (of_char c :: nat) \<le> 57"

definition is_space :: "char \<Rightarrow> bool" where
  \<comment> \<open>the character class \<open>\s\<close> on code units below 256: TAB, LF, VT, FF, CR, space, NBSP\<close>
  "is_space c \<longleftrightarrow> (of_char c :: nat) \<in> {9, 10, 11, 12, 13, 32, 160}"

definition lower_char :: "char \<Rightarrow> char" where
  \<comment> \<open>\<open>toLowerCase\<close> on one code unit below 256: A-Z and the Latin-1 capitals move up by 32\<close>
  "lower_char c =
     (let n = (of_char c :: nat) in
      if (65 \<le> n \<and> n \<le> 90) \<or> (192 \<le> n \<and> n \<le> 222 \<and> n \<noteq> 215)
      then char_of (n + 32) else c)"

definition toLowerCase :: "string \<Rightarrow> string" where
  "toLowerCase s = map lower_char s"

fun starts_with :: "string \<Rightarrow> string \<Rightarrow> bool" where
  \<comment> \<open>\<open>starts_with p s\<close>: \<open>p\<close> is read at the front of \<open>s\<close>\<close>
  "starts_with [] s = True"
| "starts_with (a # p) [] = False"
| "starts_with (a # p) (b # s) = (a = b \<and> starts_with p s)"

fun js_includes :: "string \<Rightarrow> string \<Rightarrow> bool" where
  \<comment> \<open>\<open>js_includes t p\<close> is \<open>t.includes(p)\<close>: \<open>p\<close> occurs in \<open>t\<close> at some position\<close>
  "js_includes [] p = (p = [])"
| "js_includes (c # t) p = (starts_with p (c # t) \<or> js_includes t p)"

fun split_nonletters :: "string \<Rightarrow> bool \<Rightarrow> string \<Rightarrow> string list" where
  \<comment> \<open>\<open>split_nonletters [] False s\<close> is \<open>s.split(/[^a-z]+/)\<close>. The first argument is the piece
      being collected, the second tells that the previous character was a separator (a
      maximal run of separators splits once).\<close>
  "split_nonletters cur insep [] = [cur]"
| "split_nonletters cur insep (c # cs) =
     (if is_az c then split_nonletters (cur @ [c]) False cs
      else if insep then split_nonletters cur True cs
      else cur # split_nonletters [] True cs)"

definition parts_of :: "string \<Rightarrow> string list" where
  \<comment> \<open>\<open>k.toLowerCase().split(/[^a-z]+/).filter(Boolean)\<close>: the empty string is the only
      falsy string\<close>
  "parts_of k = filter (\<lambda>p. p \<noteq> []) (split_nonletters [] False (toLowerCase k))"

subsection \<open>Heuristic grader\<close>

record grade_rubric =
  gcriteria :: "string list option"
  gmaxScore :: "int option"

definition rubric_criteria :: "grade_rubric option \<Rightarrow> string list" where
  \<comment> \<open>\<open>rubric?.criteria || []\<close> (an array, even an empty one, is truthy)\<close>
  "rubric_criteria r =
     (case r of None \<Rightarrow> [] | Some g \<Rightarrow> (case gcriteria g of None \<Rightarrow> [] | Some cs \<Rightarrow> cs))"

definition rubric_maxScore :: "grade_rubric option \<Rightarrow> int" where
  \<comment> \<open>\<open>rubric?.maxScore || 3\<close> (0 is falsy)\<close>
  "rubric_maxScore r =
     (case r of None \<Rightarrow> 3
      | Some g \<Rightarrow> (case gmaxScore g of None \<Rightarrow> 3 | Some m \<Rightarrow> if m = 0 then 3 else m))"

definition hit :: "string \<Rightarrow> string \<Rightarrow> bool" where
  \<comment> \<open>the body of the \<open>forEach\<close>: \<open>parts.some(p => t.includes(p))\<close>\<close>
  "hit t k = list_ex (\<lambda>p. js_includes t p) (parts_of k)"

definition count_hits :: "string \<Rightarrow> string list \<Rightarrow> nat" where
  \<comment> \<open>the value of \<open>score\<close> after the \<open>forEach\<close>\<close>
  "count_hits t keywords = foldl (\<lambda>score k. if hit t k then score + 1 else score) 0 keywords"

definition scoreShortAnswer :: "string \<Rightarrow> grade_rubric option \<Rightarrow> int" where
  "scoreShortAnswer text r =
     (if text = [] then 0
      else
        let t = toLowerCase text;
            keywords = rubric_criteria r;
            score = count_hits t keywords;
            max = (if length keywords = 0 then 3 else length keywords);
            ratio = min (rat_of_nat score / rat_of_nat max) 1;
            maxScore = rubric_maxScore r
        in round (ratio * rat_of_int maxScore))"

subsection \<open>JavaScript numbers\<close>

text \<open>
  A number that the remote reply or the remote score can reach is a double: a finite
  value (a rational that is a double), an infinity or \<open>NaN\<close>. \<open>fl x\<close> is the double nearest to
  the real \<open>x\<close>, ties going to the even significand; from \<open>2^1024 - 2^970\<close> on the nearest
  double is an infinity. The sign of a zero is not kept: no operation of the model
  divides by a zero that an earlier operation produced.
\<close>

datatype jsnum = Num rat | PosInf | NegInf | NaN

definition pow2 :: "int \<Rightarrow> rat" where
  "pow2 e = (if 0 \<le> e then 2 ^ nat e else 1 / 2 ^ nat (- e))"

definition exponent_of :: "rat \<Rightarrow> int" where
  \<comment> \<open>for \<open>a > 0\<close>, the \<open>e\<close> with \<open>2^e \<le> a < 2^(e+1)\<close>\<close>
  "exponent_of a =
     (let (p, q) = quotient_of a; d = bitlen p - bitlen q
      in if pow2 d \<le> a then d else d - 1)"

definition round_even :: "rat \<Rightarrow> int" where
  \<comment> \<open>the nearest integer, a half going to the even neighbour\<close>
  "round_even y =
     (let f = \<lfloor>y\<rfloor>; r = y - rat_of_int f
      in if r < 1 / 2 then f else if 1 / 2 < r then f + 1 else if even f then f else f + 1)"

definition overflow_bound :: rat where
  \<comment> \<open>\<open>2^1024 - 2^970\<close>, halfway between the largest double and \<open>2^1024\<close>\<close>
  "overflow_bound = 179769313486231580793728971405303415079934132710037826936173778980444968292764750946649017977587207096330286416692887910946555547851940402630657488671505820681908902000708383676273854845817711531764475730270069855571366959622842914819860834936475292719074168444365510704342711559699508093042880177904174497792"

definition fl :: "rat \<Rightarrow> jsnum" where
  \<comment> \<open>binary64: 53 significant bits, least exponent -1022 (below it the spacing stays
      \<open>2^-1074\<close>)\<close>
  "fl x =
     (if x = 0 then Num 0
      else
        let a = \<bar>x\<bar> in
        if overflow_bound \<le> a then (if 0 < x then PosInf else NegInf)
        else
          let e = max (exponent_of a) (- 1022);
              q = pow2 (e - 52);
              y = rat_of_int (round_even (a / q)) * q
          in Num (if 0 < x then y else - y))"

fun js_div :: "jsnum \<Rightarrow> jsnum \<Rightarrow> jsnum" where
  \<comment> \<open>the operator \<open>/\<close>\<close>
  "js_div (Num a) (Num b) =
     (if b = 0 then (if a = 0 then NaN else if 0 < a then PosInf else NegInf) else fl (a / b))"
| "js_div (Num a) PosInf = Num 0"
| "js_div (Num a) NegInf = Num 0"
| "js_div PosInf (Num b) = (if 0 \<le> b then PosInf else NegInf)"
| "js_div NegInf (Num b) = (if 0 \<le> b then NegInf else PosInf)"
| "js_div a b = NaN"

fun js_mul :: "jsnum \<Rightarrow> jsnum \<Rightarrow> jsnum" where
  \<comment> \<open>the operator \<open>*\<close>\<close>
  "js_mul (Num a) (Num b) = fl (a * b)"
| "js_mul NaN b = NaN"
| "js_mul a NaN = NaN"
| "js_mul (Num a) PosInf = (if a = 0 then NaN else if 0 < a then PosInf else NegInf)"
| "js_mul (Num a) NegInf = (if a = 0 then NaN else if 0 < a then NegInf else PosInf)"
| "js_mul PosInf (Num b) = (if b = 0 then NaN else if 0 < b then PosInf else NegInf)"
| "js_mul NegInf (Num b) = (if b = 0 then NaN else if 0 < b then NegInf else PosInf)"
| "js_mul PosInf PosInf = PosInf"
| "js_mul NegInf NegInf = PosInf"
| "js_mul PosInf NegInf = NegInf"
| "js_mul NegInf PosInf = NegInf"

fun js_add :: "jsnum \<Rightarrow> jsnum \<Rightarrow> jsnum" where
  \<comment> \<open>the operator \<open>+\<close> on numbers\<close>
  "js_add (Num a) (Num b) = fl (a + b)"
| "js_add NaN b = NaN"
| "js_add a NaN = NaN"
| "js_add PosInf NegInf = NaN"
| "js_add NegInf PosInf = NaN"
| "js_add PosInf b = PosInf"
| "js_add a PosInf = PosInf"
| "js_add NegInf b = NegInf"
| "js_add a NegInf = NegInf"

fun js_round :: "jsnum \<Rightarrow> jsnum" where
  \<comment> \<open>\<open>Math.round\<close>: the nearest integer, a half going up; exact on a double\<close>
  "js_round (Num x) = Num (rat_of_int (round x))"
| "js_round a = a"

fun js_min :: "jsnum \<Rightarrow> jsnum \<Rightarrow> jsnum" where
  \<comment> \<open>\<open>Math.min\<close> of two numbers: \<open>NaN\<close> when either is\<close>
  "js_min NaN b = NaN"
| "js_min a NaN = NaN"
| "js_min NegInf b = NegInf"
| "js_min a NegInf = NegInf"
| "js_min PosInf b = b"
| "js_min a PosInf = a"
| "js_min (Num a) (Num b) = Num (min a b)"

definition js_int :: "int \<Rightarrow> jsnum" where
  \<comment> \<open>an integer of the program as a number\<close>
  "js_int n = Num (rat_of_int n)"

subsection \<open>Remote grading adapter\<close>

text \<open>
  The request to the remote service is not modelled; what comes back is a parameter.
  \<open>Rejected\<close> stands for every way the \<open>try\<close> block can throw (the fetch rejects, the body
  is not JSON, the content is not a string); \<open>Content c\<close> is the string
  \<open>json?.choices?.[0]?.message?.content || ""\<close>.
\<close>

datatype remote = Rejected | Content string

record graded =
  score :: jsnum
  feedback :: string

definition digits_val :: "string \<Rightarrow> int" where
  \<comment> \<open>the number a string of decimal digits denotes\<close>
  "digits_val ds = foldl (\<lambda>n c. 10 * n + ((of_char c :: int) - 48)) 0 ds"

definition parseFloat :: "string \<Rightarrow> jsnum" where
  \<comment> \<open>\<open>parseFloat\<close> on the strings the two groups of the pattern can hold: digits, then
      optionally a point and more digits. The result is the double nearest to the decimal
      value.\<close>
  "parseFloat s =
     (let ip = takeWhile is_digit s;
          rest = dropWhile is_digit s;
          fp = (case rest of [] \<Rightarrow> [] | c # r \<Rightarrow> if c = CHR ''.'' then takeWhile is_digit r else [])
      in fl (rat_of_int (digits_val ip) + rat_of_int (digits_val fp) / 10 ^ length fp))"

definition match_here :: "string \<Rightarrow> (string \<times> string) option" where
  \<comment> \<open>the pattern \<open>(\d+\.?\d*)\s*\/\s*(\d+)\<close> anchored at the front of the string; the
      result holds the two groups. The classes \<open>\d\<close>, \<open>\.\<close>, \<open>\s\<close> and \<open>\/\<close> are pairwise
      disjoint and each quantifier is followed by a different class, so the greedy reading
      is the only one: giving back a character never lets the rest of the pattern match.\<close>
  "match_here s =
     (let d1 = takeWhile is_digit s; r1 = dropWhile is_digit s in
      if d1 = [] then None
      else
        let dot = (case r1 of [] \<Rightarrow> [] | c # _ \<Rightarrow> if c = CHR ''.'' then [c] else []);
            r2 = drop (length dot) r1;
            d2 = takeWhile is_digit r2;
            r3 = dropWhile is_space (dropWhile is_digit r2)
        in (case r3 of [] \<Rightarrow> None
            | c # r4 \<Rightarrow>
                if c \<noteq> CHR ''/'' then None
                else
                  let d3 = takeWhile is_digit (dropWhile is_space r4)
                  in if d3 = [] then None else Some (d1 @ dot @ d2, d3)))"

fun match_score :: "string \<Rightarrow> (string \<times> string) option" where
  \<comment> \<open>\<open>content.match(...)\<close> without the \<open>g\<close> flag: the leftmost position where the pattern
      matches\<close>
  "match_score [] = None"
| "match_score (c # cs) =
     (case match_here (c # cs) of Some g \<Rightarrow> Some g | None \<Rightarrow> match_score cs)"

definition no_key :: "string option \<Rightarrow> bool" where
  \<comment> \<open>\<open>!apiKey\<close>: the key is missing or the empty string\<close>
  "no_key apiKey \<longleftrightarrow> (case apiKey of None \<Rightarrow> True | Some k \<Rightarrow> k = [])"

definition heuristic_feedback :: string where
  "heuristic_feedback = ''Heuristic feedback based on rubric coverage.''"

definition network_feedback :: string where
  "network_feedback = ''Network error: used heuristic grading.''"

datatype error = TypeError | RequestFailed

definition remote_grade :: "string \<Rightarrow> grade_rubric option \<Rightarrow> remote \<Rightarrow> error + graded" where
  \<comment> \<open>the \<open>try\<close> block of \<open>openAIGrade\<close>: \<open>Inl\<close> when it throws. \<open>parseFloat(m[2]) || max\<close>
      replaces a denominator of 0; an infinite one is truthy and stays.\<close>
  "remote_grade answer r resp =
     (case resp of
        Rejected \<Rightarrow> Inl RequestFailed
      | Content content \<Rightarrow>
          let m = match_score content;
              max = js_int (rubric_maxScore r);
              score =
                (case m of
                   None \<Rightarrow> js_int (scoreShortAnswer answer r)
                 | Some (g1, g2) \<Rightarrow>
                     let got = parseFloat g1;
                         denom = (if parseFloat g2 = Num 0 then max else parseFloat g2)
                     in js_min (js_round (js_mul (js_div got denom) max)) max)
          in Inr \<lparr>score = score,
                  feedback = (if content = [] then ''AI feedback provided.'' else content)\<rparr>)"

definition openAIGrade ::
  "string \<Rightarrow> string \<Rightarrow> grade_rubric option \<Rightarrow> string option \<Rightarrow> remote \<Rightarrow> graded" where
  \<comment> \<open>the answer is a string, on which \<open>scoreShortAnswer\<close> cannot throw, so the branch
      without a key and the \<open>catch\<close> block always return\<close>
  "openAIGrade prompt answer r apiKey resp =
     (if no_key apiKey
      then \<lparr>score = js_int (scoreShortAnswer answer r), feedback = heuristic_feedback\<rparr>
      else
        (case remote_grade answer r resp of
           Inl e \<Rightarrow> \<lparr>score = js_int (scoreShortAnswer answer r), feedback = network_feedback\<rparr>
         | Inr g \<Rightarrow> g))"

subsection \<open>Questions and the master final exam\<close>

text \<open>
  Of a question the model keeps the fields the grading code reads: \<open>id\<close>, \<open>type\<close>,
  \<open>answer\<close>, \<open>rubric.criteria\<close> and \<open>maxScore\<close>. The prompt, the options and the rubric's
  guidance are shown to the learner or sent to the remote service and decide no result.
\<close>

datatype qtype = Mcq | Short

record question =
  qid :: string
  qtype :: qtype
  answer :: "int option"
  criteria :: "string list option"
  maxScore :: int

definition mcq :: "string \<Rightarrow> int \<Rightarrow> int \<Rightarrow> question" where
  "mcq i a m = \<lparr>qid = i, qtype = Mcq, answer = Some a, criteria = None, maxScore = m\<rparr>"

definition short :: "string \<Rightarrow> string list \<Rightarrow> int \<Rightarrow> question" where
  "short i cs m = \<lparr>qid = i, qtype = Short, answer = None, criteria = Some cs, maxScore = m\<rparr>"

definition finalExam :: "question list" where
  "finalExam =
     [mcq ''E1'' 1 1,
      short ''E2'' [''AD shift right; output gap closes'', ''Inflation/price level effects'',
        ''Long-run: crowding in/out, LRAS if supply-side'',
        ''Context on slack and multipliers''] 4,
      mcq ''E3'' 1 1,
      short ''E4'' [''Mechanism (adverse selection/moral hazard)'', ''Concrete example'',
        ''Policy and limitation''] 4,
      mcq ''E5'' 1 1,
      short ''E6'' [''Internalization mechanism'',
        ''Efficiency & certainty trade-off (price vs quantity)'',
        ''Administrative feasibility & politics''] 4,
      mcq ''E7'' 2 1,
      short ''E8'' [''Tradables vs non-tradables prices'', ''Balassa-Samuelson intuition'',
        ''Comparability''] 3,
      mcq ''E9'' 0 1,
      short ''E10'' [''Transmission via lending\<newline>'', ''Capital adequacy constraints'',
        ''Lending channel impairments''] 3,
      mcq ''E11'' 1 1,
      short ''E12'' [''CS falls'', ''PS rises'', ''Gov revenue rectangles'',
        ''DWL triangles''] 4]"


subsection \<open>Assessment engine\<close>

text \<open>
  The \<open>answers\<close> object maps a question id to what the form stored for it: the index of
  the chosen option (a number) for a multiple-choice question, the text of the textarea
  for a short answer. An id without an entry reads as \<open>undefined\<close>.
\<close>

datatype jsval = JNum int | JStr string

definition strict_eq :: "jsval option \<Rightarrow> int option \<Rightarrow> bool" where
  \<comment> \<open>\<open>answers[q.id] === q.answer\<close>: no conversion; \<open>undefined === undefined\<close> holds\<close>
  "strict_eq v a =
     (case (v, a) of
        (None, None) \<Rightarrow> True
      | (Some (JNum n), Some k) \<Rightarrow> n = k
      | _ \<Rightarrow> False)"

definition answer_text :: "jsval option \<Rightarrow> error + string" where
  \<comment> \<open>\<open>answers[q.id] || ""\<close> as the grader reads it. A number other than 0 is truthy and
      reaches \<open>text.toLowerCase()\<close> in \<open>scoreShortAnswer\<close> on every path of \<open>openAIGrade\<close>,
      also from its \<open>catch\<close> block, which throws a TypeError out of \<open>grade\<close>.\<close>
  "answer_text v =
     (case v of
        None \<Rightarrow> Inr []
      | Some (JStr s) \<Rightarrow> Inr s
      | Some (JNum n) \<Rightarrow> if n = 0 then Inr [] else Inl TypeError)"

definition question_rubric :: "question \<Rightarrow> grade_rubric option" where
  \<comment> \<open>\<open>{ criteria: q.rubric?.criteria || [], maxScore: q.maxScore }\<close>\<close>
  "question_rubric q =
     Some \<lparr>gcriteria = Some (case criteria q of None \<Rightarrow> [] | Some cs \<Rightarrow> cs),
           gmaxScore = Some (maxScore q)\<rparr>"

definition percent_of :: "jsnum \<Rightarrow> int \<Rightarrow> int option" where
  \<comment> \<open>\<open>Math.round((points / max) * 100)\<close>; \<open>None\<close> when the result is \<open>NaN\<close> or infinite (the
      points are, or \<open>max\<close> is 0)\<close>
  "percent_of pts mx =
     (case js_round (js_mul (js_div pts (js_int mx)) (Num 100)) of
        Num x \<Rightarrow> Some \<lfloor>x\<rfloor>
      | _ \<Rightarrow> None)"

record exam_state =
  points :: jsnum
  max_points :: int
  perQuestion :: "string \<rightharpoonup> jsnum"

definition exam_step ::
  "(string \<rightharpoonup> jsval) \<Rightarrow> string option \<Rightarrow> remote \<Rightarrow> exam_state \<Rightarrow> question
     \<Rightarrow> error + exam_state" where
  \<comment> \<open>one round of the loop of \<open>FinalExam.grade\<close>\<close>
  "exam_step answers apiKey resp st q =
     (let st1 = st\<lparr>max_points := max_points st + maxScore q\<rparr> in
      if qtype q = Mcq then
        let ok = strict_eq (answers (qid q)) (answer q);
            got = js_int (if ok then maxScore q else 0)
        in Inr (st1\<lparr>points := js_add (points st1) got,
                    perQuestion := (perQuestion st1)(qid q \<mapsto> got)\<rparr>)
      else
        (case answer_text (answers (qid q)) of
           Inl e \<Rightarrow> Inl e
         | Inr a \<Rightarrow>
             let res = openAIGrade [] a (question_rubric q) apiKey resp
             in Inr (st1\<lparr>points := js_add (points st1) (score res),
                         perQuestion := (perQuestion st1)(qid q \<mapsto> score res)\<rparr>)))"

fun exam_loop ::
  "(string \<rightharpoonup> jsval) \<Rightarrow> string option \<Rightarrow> (nat \<Rightarrow> remote) \<Rightarrow> nat \<Rightarrow> exam_state
     \<Rightarrow> question list \<Rightarrow> error + exam_state" where
  \<comment> \<open>\<open>for (const q of finalExam.questions)\<close>; \<open>remote i\<close> is what the service answers for
      the question at position \<open>i\<close>, if it is asked\<close>
  "exam_loop answers apiKey remote i st [] = Inr st"
| "exam_loop answers apiKey remote i st (q # qs) =
     (case exam_step answers apiKey (remote i) st q of
        Inl e \<Rightarrow> Inl e
      | Inr st' \<Rightarrow> exam_loop answers apiKey remote (Suc i) st' qs)"





subsection \<open>Recommendation engine\<close>

definition section_map :: "(string \<times> string list) list" where
  \<comment> \<open>the object \<open>map\<close>, as \<open>Object.entries\<close> lists it: in insertion order\<close>
  "section_map =
     [(''foundations'', [''E2'']),
      (''micro-markets'', [''E1'', ''E7'']),
      (''micro-failure'', [''E6'', ''E12'', ''E4'']),
      (''macro'', [''E2'', ''E10'']),
      (''global'', [''E3'', ''E11'']),
      (''development'', [''E5'', ''E8''])]"

definition exam_maxScore :: "string \<Rightarrow> int" where
  \<comment> \<open>\<open>finalExam.questions.find(q=>q.id===id)?.maxScore || 0\<close>\<close>
  "exam_maxScore i = (case find (\<lambda>q. qid q = i) finalExam of None \<Rightarrow> 0 | Some q \<Rightarrow> maxScore q)"

definition section_score :: "(string \<rightharpoonup> int) \<Rightarrow> string list \<Rightarrow> int" where
  \<comment> \<open>the body of the \<open>for\<close> loop: the value stored in \<open>scoresBySection[sec]\<close>\<close>
  "section_score pq ids =
     (let got = foldl (\<lambda>s i. s + (case pq i of None \<Rightarrow> 0 | Some v \<Rightarrow> v)) 0 ids;
          mx = foldl (\<lambda>s i. s + exam_maxScore i) 0 ids
      in if mx > 0 then round ((rat_of_int got / rat_of_int mx) * 100) else 100)"

definition scoresBySection :: "(string \<rightharpoonup> int) \<Rightarrow> (string \<times> int) list" where
  \<comment> \<open>\<open>Object.entries(scoresBySection)\<close>: the keys are distinct and none is an array index,
      so the entries come in the order of \<open>section_map\<close>\<close>
  "scoresBySection pq = map (\<lambda>(sec, ids). (sec, section_score pq ids)) section_map"

record weak_section =
  sectionId :: string
  sec_score :: int

record recommendations =
  overall :: "int option"
  weakSections :: "weak_section list"

definition generateRecommendations :: "(string \<rightharpoonup> int) \<Rightarrow> int option \<Rightarrow> recommendations" where
  \<comment> \<open>\<open>sort\<close> with the comparator \<open>a[1]-b[1]\<close> is a stable sort on the score (ECMAScript
      2019), here \<^const>\<open>sort_key\<close>; \<open>sec_score\<close> is the field \<open>score\<close> of a weak section\<close>
  "generateRecommendations pq percent =
     \<lparr>overall = percent,
      weakSections =
        map (\<lambda>(k, v). \<lparr>sectionId = k, sec_score = v\<rparr>)
          (take 3 (sort_key snd (filter (\<lambda>(k, v). v < 70) (scoresBySection pq))))\<rparr>"

text \<open>
  The argument of the final exam's \<open>onSubmit\<close>; \<open>results\<close> is its field \<open>perQuestion\<close> and
  \<open>recs\<close> its field \<open>recommendations\<close>.
\<close>

record exam_result =
  percent :: "int option"
  results :: "string \<rightharpoonup> jsnum"
  recs :: recommendations

definition read_scores :: "(string \<rightharpoonup> jsnum) \<Rightarrow> (string \<rightharpoonup> int)" where
  \<comment> \<open>the per-question map as \<open>generateRecommendations\<close> reads it, through
      \<open>perQuestion[id] || 0\<close>: an entry that is \<open>NaN\<close> is falsy and counts as 0, like a missing
      one. The finite entries are integers. An infinite entry cannot arise in the final
      exam: \<open>Math.min\<close> caps the remote score at the maximum score, which is positive.\<close>
  "read_scores pq i = (case pq i of Some (Num x) \<Rightarrow> Some \<lfloor>x\<rfloor> | _ \<Rightarrow> None)"

definition FinalExam_grade ::
  "(string \<rightharpoonup> jsval) \<Rightarrow> string option \<Rightarrow> (nat \<Rightarrow> remote) \<Rightarrow> error + exam_result" where
  \<comment> \<open>the argument of \<open>onSubmit\<close>: \<open>{ percent, perQuestion, recommendations }\<close>\<close>
  "FinalExam_grade answers apiKey remote =
     (case exam_loop answers apiKey remote 0
             \<lparr>points = Num 0, max_points = 0, perQuestion = Map.empty\<rparr> finalExam of
        Inl e \<Rightarrow> Inl e
      | Inr st \<Rightarrow>
          let pc = percent_of (points st) (max_points st)
          in Inr \<lparr>percent = pc, results = perQuestion st,
                  recs = generateRecommendations (read_scores (perQuestion st)) pc\<rparr>)"

subsection \<open>Progress store\<close>

record tally =
  attempts :: int
  best :: int

record progress =
  lessonsCompleted :: "string \<rightharpoonup> bool"
  sectionScores :: "string \<rightharpoonup> tally"
  exam :: tally

definition defaultProgress :: progress where
  "defaultProgress =
     \<lparr>lessonsCompleted = Map.empty, sectionScores = Map.empty,
      exam = \<lparr>attempts = 0, best = 0\<rparr>\<rparr>"

definition lesson_key :: "string \<Rightarrow> string \<Rightarrow> string" where
  \<comment> \<open>the template \<open>${currentSection.id}_${currentLesson.id}\<close>\<close>
  "lesson_key s l = s @ ''_'' @ l"

definition markLessonComplete :: "string \<Rightarrow> string \<Rightarrow> progress \<Rightarrow> progress" where
  \<comment> \<open>the updater passed to \<open>setProgress\<close>, for the section and lesson in view\<close>
  "markLessonComplete s l p =
     p\<lparr>lessonsCompleted := (lessonsCompleted p)(lesson_key s l \<mapsto> True)\<rparr>"





subsection \<open>Notions used to state the properties\<close>

definition is_alpha :: "char \<Rightarrow> bool" where
  \<comment> \<open>a letter: A-Z or a-z\<close>
  "is_alpha c \<longleftrightarrow> (65 \<le> (of_char c :: nat) \<and> (of_char c :: nat) \<le> 90) \<or> is_az c"

definition all_tokens_appear :: "string \<Rightarrow> string list \<Rightarrow> bool" where
  \<comment> \<open>every token of every criterion occurs in the lowercased answer\<close>
  "all_tokens_appear a cs =
     list_all (\<lambda>k. list_all (\<lambda>p. js_includes (toLowerCase a) p) (parts_of k)) cs"

definition owners :: "string \<Rightarrow> string list" where
  \<comment> \<open>the sections whose list in \<open>section_map\<close> holds the question id\<close>
  "owners i = map fst (filter (\<lambda>(sec, ids). i \<in> set ids) section_map)"

definition position_of :: "string \<Rightarrow> nat" where
  \<comment> \<open>the place of a section in the original order, that of \<open>section_map\<close>\<close>
  "position_of k = length (takeWhile (\<lambda>e. fst e \<noteq> k) section_map)"

definition weaker :: "weak_section \<Rightarrow> weak_section \<Rightarrow> bool" where
  \<comment> \<open>the order of the list of weak sections: by score, then by original position\<close>
  "weaker a b \<longleftrightarrow>
     sec_score a < sec_score b \<or>
     (sec_score a = sec_score b \<and> position_of (sectionId a) < position_of (sectionId b))"

definition text_or_blank :: "jsval option \<Rightarrow> bool" where
  \<comment> \<open>what the form stores for a short answer: nothing, or a string (or the falsy 0)\<close>
  "text_or_blank v = (case v of None \<Rightarrow> True | Some (JStr s) \<Rightarrow> True | Some (JNum n) \<Rightarrow> n = 0)"


definition awarded_in :: "(string \<rightharpoonup> jsnum) \<Rightarrow> question \<Rightarrow> jsnum" where
  \<comment> \<open>the points a per-question result map holds for a question\<close>
  "awarded_in pq q = (case pq (qid q) of None \<Rightarrow> Num 0 | Some g \<Rightarrow> g)"

definition overflowing :: string where
  \<comment> \<open>a numeral beyond the range of doubles: 1 followed by 309 zeros\<close>
  "overflowing = CHR ''1'' # replicate 309 (CHR ''0'')"

definition overflow_reply :: string where
  \<comment> \<open>a reply of the remote service with a score pattern of two such numerals\<close>
  "overflow_reply = overflowing @ ''/'' @ overflowing"

definition nonneg_num :: "jsnum \<Rightarrow> bool" where
  \<comment> \<open>a number that is neither negative nor \<open>NaN\<close>\<close>
  "nonneg_num v = (case v of Num y \<Rightarrow> 0 \<le> y | PosInf \<Rightarrow> True | NegInf \<Rightarrow> False | NaN \<Rightarrow> False)"

definition no_service :: "nat \<Rightarrow> remote" where
  \<comment> \<open>a remote service that fails on every request\<close>
  "no_service i = Rejected"

section \<open>Properties\<close>

subsection \<open>Heuristic grader\<close>

lemma foldl_hits_le:
  "foldl (\<lambda>score k. if hit t k then score + 1 else score) n ks \<le> n + length ks"
proof (induction ks arbitrary: n)
  case Nil
  show ?case by simp
next
  case (Cons k ks)
  show ?case
  proof (cases "hit t k")
    case True
    with Cons [of "n + 1"] show ?thesis by simp
  next
    case False
    with Cons [of n] show ?thesis by simp
  qed
qed

lemma foldl_hits_all:
  "\<forall>k\<in>set ks. hit t k \<Longrightarrow>
   foldl (\<lambda>score k. if hit t k then score + 1 else score) n ks = n + length ks"
  by (induction ks arbitrary: n) auto

lemma foldl_hits_none:
  "\<forall>k\<in>set ks. \<not> hit t k \<Longrightarrow>
   foldl (\<lambda>score k. if hit t k then score + 1 else score) n ks = n"
  by (induction ks arbitrary: n) auto

lemma round_ratio_range:
  fixes m :: int and q :: rat
  assumes "0 \<le> q" "q \<le> 1" "0 < m"
  shows "0 \<le> round (q * rat_of_int m) \<and> round (q * rat_of_int m) \<le> m"
proof -
  have lo: "0 \<le> q * rat_of_int m" using assms by simp
  have hi: "q * rat_of_int m \<le> rat_of_int m"
    using assms by (simp add: mult_left_le_one_le mult.commute)
  from lo have "round (0::rat) \<le> round (q * rat_of_int m)" by (rule round_mono)
  moreover from hi have "round (q * rat_of_int m) \<le> round (rat_of_int m)" by (rule round_mono)
  ultimately show ?thesis by simp
qed

lemma scoreShortAnswer_bounds:
  assumes "0 < rubric_maxScore r"
  shows "0 \<le> scoreShortAnswer a r \<and> scoreShortAnswer a r \<le> rubric_maxScore r"
proof (cases "a = []")
  case True
  with assms show ?thesis by (simp add: scoreShortAnswer_def)
next
  case False
  let ?q = "min (rat_of_nat (count_hits (toLowerCase a) (rubric_criteria r)) /
            rat_of_nat (if length (rubric_criteria r) = 0 then 3 else length (rubric_criteria r))) 1"
  have "0 \<le> ?q" by simp
  moreover have "?q \<le> 1" by simp
  ultimately have "0 \<le> round (?q * rat_of_int (rubric_maxScore r)) \<and>
      round (?q * rat_of_int (rubric_maxScore r)) \<le> rubric_maxScore r"
    using assms by (rule round_ratio_range)
  with False show ?thesis by (simp add: scoreShortAnswer_def Let_def)
qed

lemma split_no_letters:
  "\<forall>c\<in>set s. \<not> is_az c \<Longrightarrow>
   filter (\<lambda>p. p \<noteq> []) (split_nonletters cur insep s) = filter (\<lambda>p. p \<noteq> []) [cur]"
  by (induction s arbitrary: cur insep) auto

lemma lower_char_az: "is_az (lower_char c) \<longleftrightarrow> is_alpha c"
  by (auto simp: lower_char_def is_az_def is_alpha_def Let_def)

lemma parts_of_letter_free:
  assumes "\<forall>c\<in>set k. \<not> is_alpha c"
  shows "parts_of k = []"
proof -
  from assms have "\<forall>c\<in>set (toLowerCase k). \<not> is_az c"
    by (simp add: toLowerCase_def lower_char_az)
  then show ?thesis
    by (simp add: parts_of_def split_no_letters)
qed

lemma js_includes_nonempty: "js_includes t p \<Longrightarrow> p \<noteq> [] \<Longrightarrow> t \<noteq> []"
  by (cases t) auto

lemma parts_nonempty: "p \<in> set (parts_of k) \<Longrightarrow> p \<noteq> []"
  by (simp add: parts_of_def)

text \<open>
  C4. For every rubric, every answer text and every maximum score \<open>m > 0\<close>, the rubric
  scorer returns an integer between 0 and \<open>m\<close>. (No condition on the criteria is needed.)
\<close>

theorem scoreShortAnswer_in_range:
  assumes "0 < m"
  shows "0 \<le> scoreShortAnswer a (Some \<lparr>gcriteria = Some cs, gmaxScore = Some m\<rparr>)
       \<and> scoreShortAnswer a (Some \<lparr>gcriteria = Some cs, gmaxScore = Some m\<rparr>) \<le> m"
proof -
  from assms have "rubric_maxScore (Some \<lparr>gcriteria = Some cs, gmaxScore = Some m\<rparr>) = m"
    by (simp add: rubric_maxScore_def)
  with assms scoreShortAnswer_bounds [of "Some \<lparr>gcriteria = Some cs, gmaxScore = Some m\<rparr>" a]
  show ?thesis by simp
qed

theorem scoreShortAnswer_in_range_witness:
  "(0::int) < 3
   \<and> 0 \<le> scoreShortAnswer ''The curve shifts''
          (Some \<lparr>gcriteria = Some [''Outward shift of PPC'', ''Time dimension (long run)''],
                 gmaxScore = Some 3\<rparr>)
   \<and> scoreShortAnswer ''The curve shifts''
          (Some \<lparr>gcriteria = Some [''Outward shift of PPC'', ''Time dimension (long run)''],
                 gmaxScore = Some 3\<rparr>) \<le> 3"
proof -
  have h: "(0::int) < 3" by simp
  show ?thesis
    using h scoreShortAnswer_in_range [OF h, of "''The curve shifts''"
        "[''Outward shift of PPC'', ''Time dimension (long run)'']"]
    by simp
qed

text \<open>
  C5 fails as stated. The criterion \<open>"123"\<close> has no token, so every token of every
  criterion of \<open>["abc", "123"]\<close> appears in the answer \<open>"abc"\<close>; the score out of 4 is 2.
\<close>

theorem scoreShortAnswer_all_tokens_counterexample:
  "all_tokens_appear ''abc'' [''abc'', ''123'']
   \<and> scoreShortAnswer ''abc'' (Some \<lparr>gcriteria = Some [''abc'', ''123''], gmaxScore = Some 4\<rparr>) = 2"
  by code_simp

text \<open>
  C5, as amended. The claim as stated fails: a criterion without letters has no token, so
  all of its tokens appear in any answer, and yet it is never hit. With at least one
  criterion, at least one token in each criterion and every token in the lowercased
  answer, the score is the maximum score \<open>m\<close>, for \<open>m \<noteq> 0\<close> (a maximum score of 0 is
  read as 3).
\<close>

theorem scoreShortAnswer_all_tokens:
  assumes "cs \<noteq> []"
    and "\<forall>k\<in>set cs. parts_of k \<noteq> []"
    and "all_tokens_appear a cs"
    and "m \<noteq> 0"
  shows "scoreShortAnswer a (Some \<lparr>gcriteria = Some cs, gmaxScore = Some m\<rparr>) = m"
proof -
  let ?t = "toLowerCase a"
  have every: "\<forall>k\<in>set cs. \<forall>p\<in>set (parts_of k). js_includes ?t p"
    using assms(3) by (simp add: all_tokens_appear_def list_all_iff)
  have hits: "\<forall>k\<in>set cs. hit ?t k"
  proof
    fix k assume k: "k \<in> set cs"
    with assms(2) obtain p where p: "p \<in> set (parts_of k)"
      by (cases "parts_of k") auto
    with every k have "js_includes ?t p" by blast
    with p show "hit ?t k" by (auto simp: hit_def list_ex_iff)
  qed
  obtain k where k: "k \<in> set cs" using assms(1) by (cases cs) auto
  with assms(2) obtain p where p: "p \<in> set (parts_of k)"
    by (cases "parts_of k") auto
  with every k have "js_includes ?t p" by blast
  moreover from p have "p \<noteq> []" by (rule parts_nonempty)
  ultimately have "?t \<noteq> []" by (rule js_includes_nonempty)
  then have nonempty: "a \<noteq> []" by (simp add: toLowerCase_def)
  have count: "count_hits ?t cs = length cs"
    using foldl_hits_all [OF hits, of 0] by (simp add: count_hits_def)
  have len: "length cs \<noteq> 0" using assms(1) by simp
  have crit: "rubric_criteria (Some \<lparr>gcriteria = Some cs, gmaxScore = Some m\<rparr>) = cs"
    by (simp add: rubric_criteria_def)
  have mx: "rubric_maxScore (Some \<lparr>gcriteria = Some cs, gmaxScore = Some m\<rparr>) = m"
    using assms(4) by (simp add: rubric_maxScore_def)
  show ?thesis
    using nonempty len by (simp add: scoreShortAnswer_def Let_def crit mx count)
qed

theorem scoreShortAnswer_all_tokens_witness:
  "[''Outward shift of PPC'', ''Time dimension (long run)''] \<noteq> []
   \<and> parts_of ''Outward shift of PPC'' = [''outward'', ''shift'', ''of'', ''ppc'']
   \<and> parts_of ''Time dimension (long run)'' = [''time'', ''dimension'', ''long'', ''run'']
   \<and> all_tokens_appear ''In time the dimension of the PPC shifts outward in the long run''
        [''Outward shift of PPC'', ''Time dimension (long run)'']
   \<and> (3::int) \<noteq> 0
   \<and> scoreShortAnswer ''In time the dimension of the PPC shifts outward in the long run''
        (Some \<lparr>gcriteria = Some [''Outward shift of PPC'', ''Time dimension (long run)''],
               gmaxScore = Some 3\<rparr>) = 3"
proof -
  have p1: "parts_of ''Outward shift of PPC'' = [''outward'', ''shift'', ''of'', ''ppc'']"
    by code_simp
  have p2: "parts_of ''Time dimension (long run)'' = [''time'', ''dimension'', ''long'', ''run'']"
    by code_simp
  have h2: "\<forall>k\<in>set [''Outward shift of PPC'', ''Time dimension (long run)'']. parts_of k \<noteq> []"
    by (simp add: p1 p2)
  have h3: "all_tokens_appear ''In time the dimension of the PPC shifts outward in the long run''
        [''Outward shift of PPC'', ''Time dimension (long run)'']"
    by code_simp
  have h4: "(3::int) \<noteq> 0" by simp
  show ?thesis
    using scoreShortAnswer_all_tokens [OF _ h2 h3 h4] p1 p2 h3 by simp
qed

text \<open>
  C10. A criterion without letters yields no token and is hit by no answer text; a rubric
  whose criteria are all without letters scores 0, for every answer text and every
  maximum score (also a missing one).
\<close>

theorem letter_free_criteria_score_zero:
  "((\<forall>c\<in>set k. \<not> is_alpha c) \<longrightarrow> parts_of k = [] \<and> \<not> hit t k)
   \<and> ((\<forall>k\<in>set (rubric_criteria r). \<forall>c\<in>set k. \<not> is_alpha c) \<longrightarrow> scoreShortAnswer a r = 0)"
proof (intro conjI impI)
  assume "\<forall>c\<in>set k. \<not> is_alpha c"
  then show "parts_of k = []" by (rule parts_of_letter_free)
  then show "\<not> hit t k" by (simp add: hit_def)
next
  assume h: "\<forall>k\<in>set (rubric_criteria r). \<forall>c\<in>set k. \<not> is_alpha c"
  have "\<forall>k\<in>set (rubric_criteria r). \<not> hit (toLowerCase a) k"
  proof
    fix k assume "k \<in> set (rubric_criteria r)"
    with h have "parts_of k = []" by (simp add: parts_of_letter_free)
    then show "\<not> hit (toLowerCase a) k" by (simp add: hit_def)
  qed
  then have "count_hits (toLowerCase a) (rubric_criteria r) = 0"
    using foldl_hits_none [of "rubric_criteria r" "toLowerCase a" 0] by (simp add: count_hits_def)
  then show "scoreShortAnswer a r = 0"
    by (simp add: scoreShortAnswer_def Let_def)
qed

theorem letter_free_criteria_score_zero_witness:
  "list_all (\<lambda>c. \<not> is_alpha c) ''2024 (%)''
   \<and> parts_of ''2024 (%)'' = []
   \<and> \<not> hit ''in 2024 (%) prices rose'' ''2024 (%)''
   \<and> scoreShortAnswer ''In 2024 (%) prices rose''
        (Some \<lparr>gcriteria = Some [''2024 (%)'', ''10 - 20''], gmaxScore = Some 5\<rparr>) = 0"
proof -
  have h1: "\<forall>c\<in>set ''2024 (%)''. \<not> is_alpha c"
    by (simp add: is_alpha_def is_az_def)
  have h2: "\<forall>k\<in>set (rubric_criteria
        (Some \<lparr>gcriteria = Some [''2024 (%)'', ''10 - 20''], gmaxScore = Some 5\<rparr>)).
      \<forall>c\<in>set k. \<not> is_alpha c"
    by (simp add: rubric_criteria_def is_alpha_def is_az_def)
  show ?thesis
    using h1 h2
      letter_free_criteria_score_zero [of "''2024 (%)''" "''in 2024 (%) prices rose''"
        "Some \<lparr>gcriteria = Some [''2024 (%)'', ''10 - 20''], gmaxScore = Some 5\<rparr>"
        "''In 2024 (%) prices rose''"]
    by (simp add: list_all_iff)
qed

subsection \<open>Progress store\<close>








text \<open>
  C9. Recording the completion of lesson \<open>l\<close> of section \<open>s\<close> sets the entry of
  \<open>lessonsCompleted\<close> under the key \<open>s_l\<close> to true and changes nothing else: the section
  scores, the exam record and every other entry stay as they were, and doing it twice
  gives the same state as doing it once.
\<close>

theorem markLessonComplete_frame:
  "sectionScores (markLessonComplete s l p) = sectionScores p
   \<and> exam (markLessonComplete s l p) = exam p
   \<and> lessonsCompleted (markLessonComplete s l p) (lesson_key s l) = Some True
   \<and> (\<forall>k. k \<noteq> lesson_key s l \<longrightarrow>
         lessonsCompleted (markLessonComplete s l p) k = lessonsCompleted p k)
   \<and> markLessonComplete s l (markLessonComplete s l p) = markLessonComplete s l p"
  by (simp add: markLessonComplete_def)

theorem markLessonComplete_frame_witness:
  "lesson_key ''macro'' ''adas'' = ''macro_adas''
   \<and> ''macro_policy'' \<noteq> lesson_key ''macro'' ''adas''
   \<and> lessonsCompleted (markLessonComplete ''macro'' ''adas''
        (markLessonComplete ''macro'' ''policy'' defaultProgress)) ''macro_adas'' = Some True
   \<and> lessonsCompleted (markLessonComplete ''macro'' ''adas''
        (markLessonComplete ''macro'' ''policy'' defaultProgress)) ''macro_policy'' = Some True
   \<and> lessonsCompleted (markLessonComplete ''macro'' ''adas''
        (markLessonComplete ''macro'' ''policy'' defaultProgress)) ''global_fx'' = None
   \<and> exam (markLessonComplete ''macro'' ''adas''
        (markLessonComplete ''macro'' ''policy'' defaultProgress)) = \<lparr>attempts = 0, best = 0\<rparr>"
proof -
  let ?p = "markLessonComplete ''macro'' ''policy'' defaultProgress"
  have k: "lesson_key ''macro'' ''adas'' = ''macro_adas''"
    by (simp add: lesson_key_def)
  have p1: "lessonsCompleted ?p ''macro_policy'' = Some True"
    by (simp add: markLessonComplete_def lesson_key_def)
  have p2: "lessonsCompleted ?p ''global_fx'' = None"
    by (simp add: markLessonComplete_def lesson_key_def defaultProgress_def)
  have p3: "exam ?p = \<lparr>attempts = 0, best = 0\<rparr>"
    by (simp add: markLessonComplete_def defaultProgress_def)
  from markLessonComplete_frame [of "''macro''" "''adas''" ?p]
  show ?thesis
    by (simp add: k p1 p2 p3)
qed

subsection \<open>JavaScript numbers\<close>

lemma overflow_bound_eq: "overflow_bound = 2 ^ 1024 - 2 ^ 970"
  by (simp add: overflow_bound_def)

lemma pow2_pos: "0 < pow2 e"
  by (simp add: pow2_def)

lemma round_even_nonneg: "0 \<le> y \<Longrightarrow> 0 \<le> round_even y"
  by (auto simp: round_even_def Let_def)

lemma fl_nonneg:
  assumes "0 \<le> x"
  shows "nonneg_num (fl x)"
proof (cases "x = 0 \<or> overflow_bound \<le> x")
  case True
  with assms show ?thesis by (auto simp: fl_def nonneg_num_def)
next
  case False
  let ?q = "pow2 (max (exponent_of x) (- 1022) - 52)"
  have "0 < ?q" by (rule pow2_pos)
  with assms have "0 \<le> x / ?q" by simp
  then have "0 \<le> round_even (x / ?q)" by (rule round_even_nonneg)
  with \<open>0 < ?q\<close> have "0 \<le> rat_of_int (round_even (x / ?q)) * ?q" by simp
  with False assms show ?thesis by (simp add: fl_def nonneg_num_def Let_def)
qed

lemma fl_overflow: "fl (10 ^ 309) = PosInf"
  by (simp add: fl_def overflow_bound_def)

subsection \<open>Remote grading adapter\<close>

lemma digits_acc_nonneg:
  "0 \<le> n \<Longrightarrow> \<forall>c\<in>set ds. is_digit c \<Longrightarrow>
   0 \<le> foldl (\<lambda>n c. 10 * n + ((of_char c :: int) - 48)) n ds"
proof (induction ds arbitrary: n)
  case Nil
  then show ?case by simp
next
  case (Cons c ds)
  from Cons.prems(2) have "48 \<le> (of_char c :: nat)" by (simp add: is_digit_def)
  then have "48 \<le> (of_char c :: int)"
    by (metis of_nat_le_iff of_nat_numeral of_nat_of_char)
  with Cons.prems(1) have "0 \<le> 10 * n + ((of_char c :: int) - 48)" by simp
  with Cons.IH Cons.prems(2) show ?case by simp
qed

lemma digits_val_nonneg: "0 \<le> digits_val (takeWhile is_digit s)"
  unfolding digits_val_def
  by (rule digits_acc_nonneg) (auto dest: set_takeWhileD)

lemma parseFloat_nonneg: "nonneg_num (parseFloat s)"
proof -
  have "0 \<le> digits_val (case dropWhile is_digit s of [] \<Rightarrow> []
        | c # r \<Rightarrow> if c = CHR ''.'' then takeWhile is_digit r else [])"
    using digits_val_nonneg [of "tl (dropWhile is_digit s)"]
    by (auto simp: digits_val_def split: list.splits)
  with digits_val_nonneg [of s] show ?thesis
    unfolding parseFloat_def Let_def
    by (intro fl_nonneg add_nonneg_nonneg divide_nonneg_nonneg) simp_all
qed

lemma rescaled_shape:
  assumes "nonneg_num got" "nonneg_num d" "0 < m"
  shows "js_min (js_round (js_mul (js_div got (if d = Num 0 then js_int m else d)) (js_int m)))
           (js_int m) = NaN
       \<or> (\<exists>s. js_min (js_round (js_mul (js_div got (if d = Num 0 then js_int m else d))
              (js_int m))) (js_int m) = js_int s \<and> 0 \<le> s \<and> s \<le> m)"
proof -
  let ?denom = "if d = Num 0 then js_int m else d"
  have den: "nonneg_num ?denom" "?denom \<noteq> Num 0"
    using assms by (auto simp: nonneg_num_def js_int_def)
  have q: "js_div got ?denom = NaN \<or> nonneg_num (js_div got ?denom)"
  proof (cases got)
    case (Num a)
    with assms(1) have a: "0 \<le> a" by (simp add: nonneg_num_def)
    show ?thesis
    proof (cases ?denom)
      case (Num b)
      with den have "0 < b" by (auto simp: nonneg_num_def)
      with a have "0 \<le> a / b" by simp
      from fl_nonneg [OF this] \<open>got = Num a\<close> Num \<open>0 < b\<close> show ?thesis by simp
    qed (use \<open>got = Num a\<close> den in \<open>auto simp: nonneg_num_def\<close>)
  qed (use den assms in \<open>auto simp: nonneg_num_def split: jsnum.splits\<close>)
  have p: "js_mul (js_div got ?denom) (js_int m) = NaN
      \<or> nonneg_num (js_mul (js_div got ?denom) (js_int m))"
  proof (cases "js_div got ?denom")
    case (Num y)
    with q have "0 \<le> y" by (simp add: nonneg_num_def)
    with assms(3) have "0 \<le> y * rat_of_int m" by simp
    from fl_nonneg [OF this] Num show ?thesis by (simp add: js_int_def)
  qed (use q assms(3) in \<open>auto simp: nonneg_num_def js_int_def\<close>)
  show ?thesis
  proof (cases "js_mul (js_div got ?denom) (js_int m)")
    case (Num z)
    with p have "0 \<le> z" by (simp add: nonneg_num_def)
    then have "round (0::rat) \<le> round z" by (rule round_mono)
    then have "0 \<le> min (round z) m \<and> min (round z) m \<le> m"
      using assms(3) by simp
    moreover have "js_min (js_round (Num z)) (js_int m) = js_int (min (round z) m)"
      by (simp add: js_int_def)
    ultimately show ?thesis using Num by auto
  next
    case PosInf
    with assms(3) show ?thesis by (auto simp: js_int_def)
  next
    case NegInf
    with p show ?thesis by (simp add: nonneg_num_def)
  next
    case NaN
    then show ?thesis by simp
  qed
qed

text \<open>
  Apart from \<open>NaN\<close>, the score of \<open>openAIGrade\<close> is an integer between 0 and the maximum
  score, whenever that is positive.
\<close>

lemma openAIGrade_score_shape:
  assumes "0 < rubric_maxScore r"
  shows "score (openAIGrade prompt a r apiKey resp) = NaN
       \<or> (\<exists>s. score (openAIGrade prompt a r apiKey resp) = js_int s
              \<and> 0 \<le> s \<and> s \<le> rubric_maxScore r)"
proof -
  have h: "\<exists>s. js_int (scoreShortAnswer a r) = js_int s \<and> 0 \<le> s \<and> s \<le> rubric_maxScore r"
    using scoreShortAnswer_bounds [OF assms, of a] by blast
  show ?thesis
  proof (cases "no_key apiKey")
    case True
    with h show ?thesis by (simp add: openAIGrade_def)
  next
    case False
    show ?thesis
    proof (cases resp)
      case Rejected
      with False h show ?thesis by (simp add: openAIGrade_def remote_grade_def)
    next
      case (Content c)
      show ?thesis
      proof (cases "match_score c")
        case None
        with False Content h show ?thesis
          by (simp add: openAIGrade_def remote_grade_def Let_def)
      next
        case (Some g)
        obtain g1 g2 where g: "g = (g1, g2)" by (cases g)
        from rescaled_shape [OF parseFloat_nonneg parseFloat_nonneg assms, of g1 g2]
        show ?thesis
          using False Content Some g by (simp add: openAIGrade_def remote_grade_def Let_def)
      qed
    qed
  qed
qed

lemma digits_val_zeros:
  "foldl (\<lambda>n c. 10 * n + ((of_char c :: int) - 48)) n (replicate k (CHR ''0'')) = n * 10 ^ k"
  by (induction k arbitrary: n) simp_all

lemma overflowing_digits: "\<forall>c\<in>set overflowing. is_digit c"
  by (simp add: overflowing_def is_digit_def)

lemma overflowing_nonempty: "overflowing \<noteq> []"
  by (simp add: overflowing_def)

lemma digits_val_overflowing: "digits_val overflowing = 10 ^ 309"
  by (simp add: overflowing_def digits_val_def digits_val_zeros)

lemma digits_val_Nil: "digits_val [] = 0"
  by (simp add: digits_val_def)

lemma takeWhile_overflowing: "takeWhile is_digit overflowing = overflowing"
  using overflowing_digits by (simp add: takeWhile_eq_all_conv)

lemma dropWhile_overflowing: "dropWhile is_digit overflowing = []"
  using overflowing_digits by simp

lemma parseFloat_overflowing: "parseFloat overflowing = PosInf"
proof -
  have v: "rat_of_int (digits_val overflowing)
      + rat_of_int (digits_val []) / 10 ^ length ([] :: string) = 10 ^ 309"
    by (simp add: digits_val_overflowing digits_val_Nil)
  have "parseFloat overflowing = fl (rat_of_int (digits_val overflowing)
      + rat_of_int (digits_val []) / 10 ^ length ([] :: string))"
    by (simp add: parseFloat_def Let_def takeWhile_overflowing dropWhile_overflowing)
  then show ?thesis
    unfolding v by (simp only: fl_overflow)
qed

lemma match_here_overflow:
  "match_here (overflowing @ CHR ''/'' # overflowing) = Some (overflowing, overflowing)"
proof -
  have t: "takeWhile is_digit (overflowing @ CHR ''/'' # overflowing) = overflowing"
    using overflowing_digits by (simp add: takeWhile_append2 is_digit_def)
  have d: "dropWhile is_digit (overflowing @ CHR ''/'' # overflowing) = CHR ''/'' # overflowing"
    using overflowing_digits by (simp add: dropWhile_append2 is_digit_def)
  have s: "dropWhile is_space overflowing = overflowing"
    by (simp add: overflowing_def is_space_def)
  have n: "\<not> is_digit CHR ''/''" "\<not> is_space CHR ''/''"
    by (simp_all add: is_digit_def is_space_def)
  show ?thesis
    unfolding match_here_def t d
    using overflowing_nonempty by (simp add: Let_def n s takeWhile_overflowing)
qed

lemma match_overflowing: "match_score overflow_reply = Some (overflowing, overflowing)"
proof -
  obtain c cs where "overflowing @ CHR ''/'' # overflowing = c # cs"
    by (cases "overflowing @ CHR ''/'' # overflowing") (simp_all add: overflowing_def)
  with match_here_overflow show ?thesis
    by (simp add: overflow_reply_def)
qed

text \<open>
  C3. Every path of \<open>openAIGrade\<close> is meant to resolve to a score that is an integer between
  0 and the maximum score. The code misses one case: when the remote reply holds a score
  pattern whose two numerals are both beyond the range of doubles, \<open>parseFloat\<close> gives
  \<open>Infinity\<close> twice, the quotient is \<open>NaN\<close>, and neither \<open>Math.round\<close> nor \<open>Math.min\<close> brings
  it back: the call resolves with the score \<open>NaN\<close>. Here the maximum score is 4 and a key is
  present.
\<close>

theorem openAIGrade_overflow_nan:
  "parseFloat overflowing = PosInf
   \<and> match_score overflow_reply = Some (overflowing, overflowing)
   \<and> openAIGrade ''Define PED'' ''prices rise''
        (Some \<lparr>gcriteria = Some [''Price level''], gmaxScore = Some 4\<rparr>) (Some ''sk-1'')
        (Content overflow_reply)
      = \<lparr>score = NaN, feedback = overflow_reply\<rparr>"
proof -
  have "overflow_reply \<noteq> []"
    using overflowing_nonempty by (simp add: overflow_reply_def)
  then show ?thesis
    by (simp add: parseFloat_overflowing match_overflowing openAIGrade_def remote_grade_def
        no_key_def Let_def)
qed

subsection \<open>Assessment engine\<close>


lemma exam_step_other:
  "exam_step answers apiKey resp st q = Inr st' \<Longrightarrow> k \<noteq> qid q \<Longrightarrow>
   perQuestion st' k = perQuestion st k"
  by (auto simp: exam_step_def Let_def split: if_splits sum.splits)

lemma exam_step_effect:
  "exam_step answers apiKey resp st q = Inr st' \<Longrightarrow>
   max_points st' = max_points st + maxScore q \<and>
   points st' = js_add (points st) (awarded_in (perQuestion st') q)"
  by (auto simp: exam_step_def awarded_in_def Let_def split: if_splits sum.splits)

lemma exam_step_mcq:
  "exam_step answers apiKey resp st q = Inr st' \<Longrightarrow> qtype q = Mcq \<Longrightarrow>
   perQuestion st' (qid q)
     = Some (js_int (if strict_eq (answers (qid q)) (answer q) then maxScore q else 0))"
  by (auto simp: exam_step_def Let_def split: if_splits sum.splits)

lemma exam_step_returns:
  "qtype q = Short \<longrightarrow> text_or_blank (answers (qid q)) \<Longrightarrow>
   \<exists>st'. exam_step answers apiKey resp st q = Inr st'"
  by (cases "qtype q")
     (auto simp: exam_step_def Let_def answer_text_def text_or_blank_def
           split: option.splits jsval.splits)

lemma exam_loop_other:
  "exam_loop answers apiKey remote i st qs = Inr st' \<Longrightarrow> k \<notin> set (map qid qs) \<Longrightarrow>
   perQuestion st' k = perQuestion st k"
proof (induction qs arbitrary: i st)
  case Nil
  then show ?case by simp
next
  case (Cons q qs)
  from Cons.prems(1) obtain st1 where
    s1: "exam_step answers apiKey (remote i) st q = Inr st1" and
    l1: "exam_loop answers apiKey remote (Suc i) st1 qs = Inr st'"
    by (auto split: sum.splits)
  from Cons.prems(2) have "k \<noteq> qid q" "k \<notin> set (map qid qs)" by auto
  with Cons.IH [OF l1] exam_step_other [OF s1] show ?case by simp
qed

lemma exam_loop_totals:
  "exam_loop answers apiKey remote i st qs = Inr st' \<Longrightarrow> distinct (map qid qs) \<Longrightarrow>
   max_points st' = max_points st + sum_list (map maxScore qs) \<and>
   points st' = foldl js_add (points st) (map (awarded_in (perQuestion st')) qs)"
proof (induction qs arbitrary: i st)
  case Nil
  then show ?case by simp
next
  case (Cons q qs)
  from Cons.prems(1) obtain st1 where
    s1: "exam_step answers apiKey (remote i) st q = Inr st1" and
    l1: "exam_loop answers apiKey remote (Suc i) st1 qs = Inr st'"
    by (auto split: sum.splits)
  from Cons.prems(2) have d: "distinct (map qid qs)" and n: "qid q \<notin> set (map qid qs)"
    by auto
  have keep: "perQuestion st' (qid q) = perQuestion st1 (qid q)"
    using l1 n by (rule exam_loop_other)
  then have "awarded_in (perQuestion st') q = awarded_in (perQuestion st1) q"
    by (simp add: awarded_in_def)
  with Cons.IH [OF l1 d] exam_step_effect [OF s1] show ?case by simp
qed

lemma exam_loop_mcq:
  "exam_loop answers apiKey remote i st qs = Inr st' \<Longrightarrow> distinct (map qid qs) \<Longrightarrow>
   q \<in> set qs \<Longrightarrow> qtype q = Mcq \<Longrightarrow>
   perQuestion st' (qid q)
     = Some (js_int (if strict_eq (answers (qid q)) (answer q) then maxScore q else 0))"
proof (induction qs arbitrary: i st)
  case Nil
  then show ?case by simp
next
  case (Cons x qs)
  from Cons.prems(1) obtain st1 where
    s1: "exam_step answers apiKey (remote i) st x = Inr st1" and
    l1: "exam_loop answers apiKey remote (Suc i) st1 qs = Inr st'"
    by (auto split: sum.splits)
  from Cons.prems(2) have d: "distinct (map qid qs)" and n: "qid x \<notin> set (map qid qs)"
    by auto
  show ?case
  proof (cases "q = x")
    case True
    have "perQuestion st' (qid x) = perQuestion st1 (qid x)"
      using l1 n by (rule exam_loop_other)
    with True exam_step_mcq [OF s1] Cons.prems(4) show ?thesis by simp
  next
    case False
    with Cons.prems(3) have "q \<in> set qs" by simp
    with Cons.IH [OF l1 d] Cons.prems(4) show ?thesis by simp
  qed
qed

lemma exam_loop_returns:
  "\<forall>q\<in>set qs. qtype q = Short \<longrightarrow> text_or_blank (answers (qid q)) \<Longrightarrow>
   \<exists>st'. exam_loop answers apiKey remote i st qs = Inr st'"
proof (induction qs arbitrary: i st)
  case Nil
  show ?case by simp
next
  case (Cons q qs)
  from Cons.prems have "qtype q = Short \<longrightarrow> text_or_blank (answers (qid q))" by simp
  then obtain st1 where "exam_step answers apiKey (remote i) st q = Inr st1"
    using exam_step_returns by blast
  moreover from Cons.prems Cons.IH obtain st' where
    "exam_loop answers apiKey remote (Suc i) st1 qs = Inr st'" by fastforce
  ultimately show ?case by simp
qed





lemma finalExam_distinct: "distinct (map qid finalExam)"
  by code_simp

lemma finalExam_max: "sum_list (map maxScore finalExam) = 28"
  by code_simp

lemma finalExam_mcq_total:
  "foldl js_add (Num 0)
     (map (\<lambda>q. js_int (if qtype q = Mcq then maxScore q else 0)) finalExam) = Num 6"
  by code_simp

lemma percent_6_28: "percent_of (Num 6) 28 = Some 21"
  by code_simp



text \<open>
  C1 fails as stated. With every multiple-choice question of the final exam answered
  correctly, no short answer given and no key, every short answer is awarded 0 and the
  percent is 21, not 25.
\<close>

theorem finalExam_percent_counterexample:
  "map_sum id (\<lambda>r. (percent r, map (results r) (map qid finalExam)))
     (FinalExam_grade
        [''E1'' \<mapsto> JNum 1, ''E3'' \<mapsto> JNum 1, ''E5'' \<mapsto> JNum 1, ''E7'' \<mapsto> JNum 2,
         ''E9'' \<mapsto> JNum 0, ''E11'' \<mapsto> JNum 1]
        None no_service)
   = Inr (Some 21,
          [Some (Num 1), Some (Num 0), Some (Num 1), Some (Num 0), Some (Num 1), Some (Num 0),
           Some (Num 1), Some (Num 0), Some (Num 1), Some (Num 0), Some (Num 1),
           Some (Num 0)])"
  by code_simp

text \<open>
  C1, as amended. The claim as stated fails: the six short answers of the final exam carry
  4, 4, 4, 3, 3 and 4 points, 22 and not 18, so the total is 28 and not 24. Grading the
  final exam with every multiple-choice question answered correctly (and the short answers
  empty or text, as the form stores them) returns a result, and when every short answer
  is awarded 0 points the percent is 21, that is round(100 * 6 / 28).
\<close>

theorem finalExam_percent:
  assumes right: "\<forall>q\<in>set finalExam. qtype q = Mcq \<longrightarrow>
      answers (qid q) = map_option JNum (answer q)"
    and texts: "\<forall>q\<in>set finalExam. qtype q = Short \<longrightarrow> text_or_blank (answers (qid q))"
  shows "\<exists>r. FinalExam_grade answers apiKey remote = Inr r \<and>
           ((\<forall>q\<in>set finalExam. qtype q = Short \<longrightarrow> results r (qid q) = Some (Num 0)) \<longrightarrow>
             percent r = Some 21)"
proof -
  let ?st0 = "\<lparr>points = Num 0, max_points = 0, perQuestion = Map.empty\<rparr>"
  from texts obtain st where loop: "exam_loop answers apiKey remote 0 ?st0 finalExam = Inr st"
    using exam_loop_returns by blast
  let ?r = "\<lparr>percent = percent_of (points st) (max_points st), results = perQuestion st,
    recs = generateRecommendations (read_scores (perQuestion st))
      (percent_of (points st) (max_points st))\<rparr>"
  have r: "FinalExam_grade answers apiKey remote = Inr ?r"
    using loop by (simp add: FinalExam_grade_def Let_def)
  have tot: "max_points st = 28
      \<and> points st = foldl js_add (Num 0) (map (awarded_in (perQuestion st)) finalExam)"
    using exam_loop_totals [OF loop finalExam_distinct] finalExam_max by simp
  have "percent ?r = Some 21"
    if zero: "\<forall>q\<in>set finalExam. qtype q = Short \<longrightarrow> results ?r (qid q) = Some (Num 0)"
  proof -
    have "\<forall>q\<in>set finalExam.
        awarded_in (perQuestion st) q = js_int (if qtype q = Mcq then maxScore q else 0)"
    proof
      fix q assume q: "q \<in> set finalExam"
      show "awarded_in (perQuestion st) q = js_int (if qtype q = Mcq then maxScore q else 0)"
      proof (cases "qtype q")
        case Mcq
        with right q have "answers (qid q) = map_option JNum (answer q)" by blast
        then have "strict_eq (answers (qid q)) (answer q)"
          by (cases "answer q") (simp_all add: strict_eq_def)
        with exam_loop_mcq [OF loop finalExam_distinct q Mcq] Mcq
        show ?thesis by (simp add: awarded_in_def)
      next
        case Short
        with zero q have "perQuestion st (qid q) = Some (Num 0)" by simp
        with Short show ?thesis by (simp add: awarded_in_def js_int_def)
      qed
    qed
    then have "map (awarded_in (perQuestion st)) finalExam
        = map (\<lambda>q. js_int (if qtype q = Mcq then maxScore q else 0)) finalExam"
      by simp
    with tot finalExam_mcq_total have "points st = Num 6" by simp
    with tot percent_6_28 show ?thesis by simp
  qed
  with r show ?thesis by blast
qed

theorem finalExam_percent_witness:
  "list_all (\<lambda>q. qtype q \<noteq> Mcq \<or>
        [''E1'' \<mapsto> JNum 1, ''E3'' \<mapsto> JNum 1, ''E5'' \<mapsto> JNum 1, ''E7'' \<mapsto> JNum 2,
         ''E9'' \<mapsto> JNum 0, ''E11'' \<mapsto> JNum 1, ''E2'' \<mapsto> JStr ''no idea''] (qid q)
          = map_option JNum (answer q)) finalExam
   \<and> list_all (\<lambda>q. qtype q \<noteq> Short \<or> text_or_blank
        ([''E1'' \<mapsto> JNum 1, ''E3'' \<mapsto> JNum 1, ''E5'' \<mapsto> JNum 1, ''E7'' \<mapsto> JNum 2,
         ''E9'' \<mapsto> JNum 0, ''E11'' \<mapsto> JNum 1, ''E2'' \<mapsto> JStr ''no idea''] (qid q)))
        finalExam
   \<and> map_sum id (\<lambda>r. (percent r, map (results r) (map qid finalExam)))
       (FinalExam_grade
          [''E1'' \<mapsto> JNum 1, ''E3'' \<mapsto> JNum 1, ''E5'' \<mapsto> JNum 1, ''E7'' \<mapsto> JNum 2,
           ''E9'' \<mapsto> JNum 0, ''E11'' \<mapsto> JNum 1, ''E2'' \<mapsto> JStr ''no idea'']
          (Some ''sk-1'') no_service)
      = Inr (Some 21,
          [Some (Num 1), Some (Num 0), Some (Num 1), Some (Num 0), Some (Num 1), Some (Num 0),
           Some (Num 1), Some (Num 0), Some (Num 1), Some (Num 0), Some (Num 1),
           Some (Num 0)])"
proof -
  let ?a = "[''E1'' \<mapsto> JNum 1, ''E3'' \<mapsto> JNum 1, ''E5'' \<mapsto> JNum 1, ''E7'' \<mapsto> JNum 2,
         ''E9'' \<mapsto> JNum 0, ''E11'' \<mapsto> JNum 1, ''E2'' \<mapsto> JStr ''no idea'']"
  have h1: "list_all (\<lambda>q. qtype q \<noteq> Mcq \<or> ?a (qid q) = map_option JNum (answer q)) finalExam"
    by code_simp
  have h2: "list_all (\<lambda>q. qtype q \<noteq> Short \<or> text_or_blank (?a (qid q))) finalExam"
    by code_simp
  have v: "map_sum id (\<lambda>r. (percent r, map (results r) (map qid finalExam)))
       (FinalExam_grade ?a (Some ''sk-1'') no_service)
      = Inr (Some 21,
          [Some (Num 1), Some (Num 0), Some (Num 1), Some (Num 0), Some (Num 1), Some (Num 0),
           Some (Num 1), Some (Num 0), Some (Num 1), Some (Num 0), Some (Num 1),
           Some (Num 0)])"
    by code_simp
  from h1 have a1: "\<forall>q\<in>set finalExam. qtype q = Mcq \<longrightarrow>
      ?a (qid q) = map_option JNum (answer q)"
    by (auto simp: list_all_iff)
  from h2 have a2: "\<forall>q\<in>set finalExam. qtype q = Short \<longrightarrow> text_or_blank (?a (qid q))"
    by (auto simp: list_all_iff)
  from finalExam_percent [OF a1 a2, of "Some ''sk-1''" no_service]
  obtain r where "FinalExam_grade ?a (Some ''sk-1'') no_service = Inr r" by blast
  with h1 h2 v show ?thesis by simp
qed

subsection \<open>Recommendation engine\<close>

text \<open>
  C2. The recommendation mapping is meant to give every exam question to one section. The
  code does not: the twelve questions are each in the list of exactly one section, except
  E2, which is in the lists of foundations and of macro, and E9, which is in none. So a
  final exam in which only E2 earns no points marks two sections as weak.
\<close>

theorem question_owner_shared:
  "map owners (map qid finalExam)
     = [[''micro-markets''], [''foundations'', ''macro''], [''global''], [''micro-failure''],
        [''development''], [''micro-failure''], [''micro-markets''], [''development''],
        [], [''macro''], [''global''], [''micro-failure'']]
   \<and> weakSections (generateRecommendations
        [''E1'' \<mapsto> 1, ''E2'' \<mapsto> 0, ''E3'' \<mapsto> 1, ''E4'' \<mapsto> 4, ''E5'' \<mapsto> 1, ''E6'' \<mapsto> 4,
         ''E7'' \<mapsto> 1, ''E8'' \<mapsto> 3, ''E9'' \<mapsto> 1, ''E10'' \<mapsto> 3, ''E11'' \<mapsto> 1,
         ''E12'' \<mapsto> 4] (Some 86))
     = [\<lparr>sectionId = ''foundations'', sec_score = 0\<rparr>,
        \<lparr>sectionId = ''macro'', sec_score = 43\<rparr>]"
  by code_simp

lemma insort_by_score:
  fixes pos :: "'a \<Rightarrow> nat"
  assumes "sorted_wrt (\<lambda>a b. snd a < snd b \<or> (snd a = snd b \<and> pos (fst a) < pos (fst b))) ys"
    and "\<forall>y\<in>set ys. pos (fst x) < pos (fst y)"
  shows "sorted_wrt (\<lambda>a b. snd a < snd b \<or> (snd a = snd b \<and> pos (fst a) < pos (fst b)))
           (insort_key snd (x :: 'a \<times> int) ys)"
  using assms
proof (induction ys)
  case Nil
  show ?case by simp
next
  case (Cons y ys)
  show ?case
  proof (cases "snd x \<le> snd y")
    case True
    have "\<forall>z\<in>set ys. snd y \<le> snd z" using Cons.prems(1) by auto
    with True have le: "\<forall>z\<in>set (y # ys). snd x \<le> snd z" by auto
    have "\<forall>z\<in>set (y # ys). snd x < snd z \<or> (snd x = snd z \<and> pos (fst x) < pos (fst z))"
    proof
      fix z assume z: "z \<in> set (y # ys)"
      with le have "snd x \<le> snd z" by blast
      moreover from z Cons.prems(2) have "pos (fst x) < pos (fst z)" by blast
      ultimately show "snd x < snd z \<or> (snd x = snd z \<and> pos (fst x) < pos (fst z))" by auto
    qed
    with True Cons.prems(1) show ?thesis by simp
  next
    case False
    have tl: "sorted_wrt (\<lambda>a b. snd a < snd b \<or> (snd a = snd b \<and> pos (fst a) < pos (fst b)))
           (insort_key snd x ys)"
      using Cons.IH Cons.prems by simp
    from False Cons.prems(1) tl show ?thesis
      by (auto simp: set_insort_key)
  qed
qed

lemma sort_by_score_stable:
  fixes pos :: "'a \<Rightarrow> nat"
  assumes "sorted_wrt (\<lambda>a b. pos (fst a) < pos (fst b)) xs"
  shows "sorted_wrt (\<lambda>a b. snd a < snd b \<or> (snd a = snd b \<and> pos (fst a) < pos (fst b)))
           (sort_key snd (xs :: ('a \<times> int) list))"
  using assms
proof (induction xs)
  case Nil
  show ?case by simp
next
  case (Cons x xs)
  from Cons.prems have "\<forall>y\<in>set (sort_key snd xs). pos (fst x) < pos (fst y)" by simp
  moreover from Cons
  have "sorted_wrt (\<lambda>a b. snd a < snd b \<or> (snd a = snd b \<and> pos (fst a) < pos (fst b)))
           (sort_key snd xs)" by simp
  ultimately show ?case using insort_by_score [of pos "sort_key snd xs" x] by simp
qed

lemma positions_increase:
  "sorted_wrt (\<lambda>a b. position_of (fst a) < position_of (fst b)) (scoresBySection pq)"
  by (simp add: scoresBySection_def section_map_def position_of_def)

text \<open>
  C7. For every per-question result map, the list of weak sections has at most 3 entries,
  each a section with its score, which is below 70; the scores are non-decreasing along
  the list, and of two entries with the same score the one of the section that comes first
  in the original order comes first.
\<close>

theorem weakSections_ranked:
  "length (weakSections (generateRecommendations pq pc)) \<le> 3
   \<and> (\<forall>w\<in>set (weakSections (generateRecommendations pq pc)).
         sec_score w < 70 \<and> (sectionId w, sec_score w) \<in> set (scoresBySection pq))
   \<and> sorted (map sec_score (weakSections (generateRecommendations pq pc)))
   \<and> sorted_wrt weaker (weakSections (generateRecommendations pq pc))"
proof -
  let ?cands = "filter (\<lambda>(k, v). v < 70) (scoresBySection pq)"
  let ?top = "take 3 (sort_key snd ?cands)"
  let ?mk = "\<lambda>(k, v). \<lparr>sectionId = k, sec_score = v\<rparr>"
  let ?lex = "\<lambda>a b. snd a < snd b \<or>
      (snd a = snd b \<and> position_of (fst a) < position_of (fst b))"
  have ws: "weakSections (generateRecommendations pq pc) = map ?mk ?top"
    by (simp add: generateRecommendations_def)
  have len: "length (map ?mk ?top) \<le> 3" by simp
  have sub: "set ?top \<subseteq> set ?cands"
    using set_take_subset [of 3 "sort_key snd ?cands"] by simp
  have below: "\<forall>w\<in>set (map ?mk ?top).
      sec_score w < 70 \<and> (sectionId w, sec_score w) \<in> set (scoresBySection pq)"
    using sub by auto
  have "sorted (map snd (sort_key snd ?cands))" by (rule sorted_sort_key)
  then have "sorted (take 3 (map snd (sort_key snd ?cands)))" by (rule sorted_wrt_take)
  moreover have "map sec_score (map ?mk ?top) = take 3 (map snd (sort_key snd ?cands))"
    by (simp add: take_map case_prod_beta)
  ultimately have asc: "sorted (map sec_score (map ?mk ?top))" by simp
  have "sorted_wrt (\<lambda>a b. position_of (fst a) < position_of (fst b)) ?cands"
    using positions_increase by (rule sorted_wrt_filter)
  then have "sorted_wrt ?lex (sort_key snd ?cands)"
    by (rule sort_by_score_stable)
  then have "sorted_wrt ?lex ?top"
    by (rule sorted_wrt_take)
  then have ties: "sorted_wrt weaker (map ?mk ?top)"
    by (simp add: sorted_wrt_map weaker_def case_prod_beta)
  from len below asc ties show ?thesis
    unfolding ws by blast
qed

theorem weakSections_ranked_witness:
  "weakSections (generateRecommendations
      [''E1'' \<mapsto> 1, ''E2'' \<mapsto> 2, ''E3'' \<mapsto> 1, ''E4'' \<mapsto> 4, ''E5'' \<mapsto> 0, ''E6'' \<mapsto> 4,
       ''E7'' \<mapsto> 0, ''E8'' \<mapsto> 0, ''E10'' \<mapsto> 3, ''E11'' \<mapsto> 1, ''E12'' \<mapsto> 4] None)
     = [\<lparr>sectionId = ''development'', sec_score = 0\<rparr>,
        \<lparr>sectionId = ''foundations'', sec_score = 50\<rparr>,
        \<lparr>sectionId = ''micro-markets'', sec_score = 50\<rparr>]
   \<and> position_of ''foundations'' = 0 \<and> position_of ''micro-markets'' = 1
   \<and> weaker \<lparr>sectionId = ''foundations'', sec_score = 50\<rparr>
        \<lparr>sectionId = ''micro-markets'', sec_score = 50\<rparr>
   \<and> sorted_wrt weaker (weakSections (generateRecommendations
      [''E1'' \<mapsto> 1, ''E2'' \<mapsto> 2, ''E3'' \<mapsto> 1, ''E4'' \<mapsto> 4, ''E5'' \<mapsto> 0, ''E6'' \<mapsto> 4,
       ''E7'' \<mapsto> 0, ''E8'' \<mapsto> 0, ''E10'' \<mapsto> 3, ''E11'' \<mapsto> 1, ''E12'' \<mapsto> 4] None))"
proof -
  let ?pq = "[''E1'' \<mapsto> 1, ''E2'' \<mapsto> 2, ''E3'' \<mapsto> 1, ''E4'' \<mapsto> 4, ''E5'' \<mapsto> 0, ''E6'' \<mapsto> 4,
       ''E7'' \<mapsto> 0, ''E8'' \<mapsto> 0, ''E10'' \<mapsto> 3, ''E11'' \<mapsto> 1, ''E12'' \<mapsto> (4::int)]"
  have v: "weakSections (generateRecommendations ?pq None)
     = [\<lparr>sectionId = ''development'', sec_score = 0\<rparr>,
        \<lparr>sectionId = ''foundations'', sec_score = 50\<rparr>,
        \<lparr>sectionId = ''micro-markets'', sec_score = 50\<rparr>]"
    by code_simp
  have p: "position_of ''foundations'' = 0" "position_of ''micro-markets'' = 1"
    by code_simp+
  from weakSections_ranked [of ?pq None]
  have s: "sorted_wrt weaker (weakSections (generateRecommendations ?pq None))"
    by blast
  then have "weaker \<lparr>sectionId = ''foundations'', sec_score = 50\<rparr>
        \<lparr>sectionId = ''micro-markets'', sec_score = 50\<rparr>"
    unfolding v by simp
  with v p s show ?thesis by blast
qed

end
